theory Spec2Isabelle
  imports Complex_Main "HOL-Library.AList"
begin

section \<open>Shared helpers: Go string functions\<close>

text \<open>
  Go strings are byte sequences; they are modelled as \<open>string\<close> (a list of bytes).
  \<open>Sprintd\<close> is the \<^verbatim>\<open>%d\<close> verb of \<^verbatim>\<open>fmt.Sprintf\<close> on a non-negative integer.
\<close>

definition digit :: "nat \<Rightarrow> char" where
  "digit n = ''0123456789'' ! (n mod 10)"

function Sprintd :: "nat \<Rightarrow> string" where
  "Sprintd n = (if n < 10 then [digit n] else Sprintd (n div 10) @ [digit n])"
  by pat_completeness auto
termination
  by (relation "measure id") auto

text \<open>
  \<^verbatim>\<open>strings.Trim(s, cutset)\<close>: all leading and trailing bytes contained in the cutset are
  removed (the cutsets used by the program are ASCII).
\<close>

definition Trim :: "string \<Rightarrow> string \<Rightarrow> string" where
  "Trim s cutset =
     rev (dropWhile (\<lambda>c. c \<in> set cutset) (rev (dropWhile (\<lambda>c. c \<in> set cutset) s)))"

text \<open>
  \<^verbatim>\<open>strings.Split(s, sep)\<close> for a non-empty separator: the pieces of \<open>s\<close> between the
  successive leftmost occurrences of \<open>sep\<close>; \<open>cur\<close> is the piece being collected, reversed.
  With an empty separator Go splits after each character; the program never does that and
  the model gives one byte per piece there.
\<close>

function genSplit :: "string \<Rightarrow> string \<Rightarrow> string \<Rightarrow> string list" where
  "genSplit sep cur [] = [rev cur]"
| "genSplit sep cur (c # cs) =
     (if sep \<noteq> [] \<and> take (length sep) (c # cs) = sep
      then rev cur # genSplit sep [] (drop (length sep) (c # cs))
      else genSplit sep (c # cur) cs)"
  by pat_completeness auto
termination
  by (relation "measure (\<lambda>(sep, cur, s). length s)") auto

definition Split :: "string \<Rightarrow> string \<Rightarrow> string list" where
  "Split s sep = (if sep = [] then map (\<lambda>c. [c]) s else genSplit sep [] s)"

text \<open>\<^verbatim>\<open>strings.Contains(s, substr)\<close>.\<close>

fun Contains :: "string \<Rightarrow> string \<Rightarrow> bool" where
  "Contains [] substr = (substr = [])"
| "Contains (c # cs) substr = (take (length substr) (c # cs) = substr \<or> Contains cs substr)"

section \<open>Credentials store: transport/crdstore/crdstore.go\<close>

text \<open>
  Instants (\<^verbatim>\<open>time.Time\<close>) are nanoseconds counted from Go's zero instant, so the zero value
  of a \<^verbatim>\<open>time.Time\<close> field is \<open>0\<close>. A \<^verbatim>\<open>time.Duration\<close> is a signed 64-bit count of
  nanoseconds: it is an \<open>int\<close> here and every product is wrapped by \<open>wrap64\<close>; the
  quotient truncates towards zero as Go's does.
\<close>

type_synonym time = int
type_synonym duration = int

definition wrap64 :: "int \<Rightarrow> int" where
  "wrap64 x = (x + 2 ^ 63) mod 2 ^ 64 - 2 ^ 63"

definition quo :: "int \<Rightarrow> int \<Rightarrow> int" where
  "quo a b = (if (a < 0) = (b < 0) then \<bar>a\<bar> div \<bar>b\<bar> else - (\<bar>a\<bar> div \<bar>b\<bar>))"

definition Millisecond :: duration where
  "Millisecond = 1000000"

definition Second :: duration where
  "Second = 1000000000"

definition refreshTTLPercent :: int where
  "refreshTTLPercent = 80"

definition ttl :: duration where
  "ttl = 10 * Second"

definition After :: "time \<Rightarrow> time \<Rightarrow> bool" where
  "After t u = (u < t)"

text \<open>
  Errors: the sentinel \<^verbatim>\<open>ErrCredentialsNotFound\<close> and the values built by
  \<^verbatim>\<open>fmt.Errorf\<close>, which are never identical to the sentinel.
\<close>

datatype error = ErrCredentialsNotFound | Errorf string

text \<open>
  Modelled from the spec: the type \<^verbatim>\<open>CredentialsStoreData\<close> is declared outside the given
  sources. The spec's CredentialsEntry has \<open>access_key\<close>, \<open>secret_key\<close>, \<open>eol\<close> and
  \<open>last_error\<close>; the source reads and writes them as \<^verbatim>\<open>AccessKey\<close>, \<^verbatim>\<open>EOL\<close> and \<^verbatim>\<open>err\<close>.
\<close>

record CredentialsStoreData =
  AccessKey :: string
  SecretKey :: string
  EOL :: time
  err :: "error option"

definition zeroCsd :: CredentialsStoreData where
  "zeroCsd = \<lparr>AccessKey = [], SecretKey = [], EOL = 0, err = None\<rparr>"

text \<open>
  The store. \<open>lock\<close> is the locked bit of the mutex. \<open>requests\<close> is not a field of the Go
  struct: it logs the GET requests sent to the credentials service, oldest first, as
  (endpoint, access key, backend), so that "the service is contacted" can be stated.
\<close>

record CredentialsStore =
  endpoint :: string
  cache :: "string \<rightharpoonup> CredentialsStoreData"
  TTL :: duration
  lock :: bool
  requests :: "(string \<times> string \<times> string) list"


definition prepareKey :: "string \<Rightarrow> string \<Rightarrow> string" where
  "prepareKey accessKey backend = accessKey @ ''_____'' @ backend"

text \<open>
  What \<^verbatim>\<open>grequests.Get\<close> yields: a transport error, or a response with its status code and
  body. \<^verbatim>\<open>Unmarshal\<close> is declared outside the given sources and is a parameter \<open>unm\<close>: from
  the entry it is called on and the body it gives the entry it leaves and its error.
\<close>

datatype http_result = RequestError string | Response nat string

type_synonym unmarshal = "CredentialsStoreData \<Rightarrow> string \<Rightarrow> CredentialsStoreData \<times> error option"

definition GetFromService ::
  "unmarshal \<Rightarrow> http_result \<Rightarrow> CredentialsStoreData option \<times> error option" where
  "GetFromService unm r =
     (case r of
        RequestError e \<Rightarrow>
          (Some zeroCsd,
           Some (Errorf (''unable to make request to credentials store service - err: '' @ e)))
      | Response status body \<Rightarrow>
          if status = 404 then (None, Some ErrCredentialsNotFound)
          else if status \<noteq> 200 then
            (Some zeroCsd,
             Some (Errorf (''unable to get credentials from store service - StatusCode: ''
                           @ Sprintd status)))
          else if length body = 0 then
            (Some zeroCsd, Some (Errorf ''got empty credentials from store service''))
          else (case unm zeroCsd body of (c, e) \<Rightarrow> (Some c, e)))"

text \<open>
  A call either returns, or waits for the mutex (it does not return while the state stays
  as it is), or panics on a nil pointer.
\<close>

datatype 'a outcome = Returned 'a | Blocked | Panicked

text \<open>
  Lines 77 to 92 of \<^verbatim>\<open>updateCache\<close>: the entry that is stored. \<open>tc\<close> is the clock reading
  of lines 82 and 85, \<open>ts\<close> the one of line 92.
\<close>

definition newEntry ::
  "unmarshal \<Rightarrow> http_result \<Rightarrow> duration \<Rightarrow> time \<Rightarrow> time \<Rightarrow> CredentialsStoreData option
     \<Rightarrow> CredentialsStoreData option" where
  "newEntry unm r d tc ts csd =
     map_option (\<lambda>n. n\<lparr>EOL := ts + d\<rparr>)
       (case GetFromService unm r of
          (newCsd, None) \<Rightarrow> map_option (\<lambda>n. n\<lparr>err := None\<rparr>) newCsd
        | (newCsd, Some e) \<Rightarrow>
            if e = ErrCredentialsNotFound
            then Some (zeroCsd\<lparr>EOL := tc + d, err := Some ErrCredentialsNotFound\<rparr>)
            else map_option (\<lambda>n. n\<lparr>err := Some e\<rparr>)
                   (case csd of
                      None \<Rightarrow> Some (zeroCsd\<lparr>EOL := tc + d, err := Some e\<rparr>)
                    | Some c \<Rightarrow> map_option (\<lambda>n. c) newCsd))"

type_synonym result = "CredentialsStore \<times> CredentialsStoreData option \<times> error option"

text \<open>
  \<open>send\<close>: the mutex is taken and the request leaves; \<open>receive\<close>: the answer \<open>r\<close> is
  there, the entry is stored, the mutex released and the result returned (lines 77 to 98).
\<close>

definition send :: "CredentialsStore \<Rightarrow> string \<Rightarrow> string \<Rightarrow> CredentialsStore" where
  "send cs accessKey backend =
     cs\<lparr>lock := True, requests := requests cs @ [(endpoint cs, accessKey, backend)]\<rparr>"

definition receive ::
  "unmarshal \<Rightarrow> http_result \<Rightarrow> time \<Rightarrow> time \<Rightarrow> CredentialsStore \<Rightarrow> string
     \<Rightarrow> CredentialsStoreData option \<Rightarrow> result outcome" where
  "receive unm r tc ts cs key csd =
     (case newEntry unm r (TTL cs) tc ts csd of
        None \<Rightarrow> Panicked
      | Some newCsd \<Rightarrow>
          let cs' = cs\<lparr>cache := (cache cs)(key \<mapsto> newCsd), lock := False\<rparr>
          in if AccessKey newCsd = [] then Returned (cs', None, err newCsd)
             else Returned (cs', Some newCsd, None))"

text \<open>
  \<^verbatim>\<open>tryLock\<close> is a compare-and-swap of the mutex word from 0 to 1: it succeeds when the
  mutex is free. The model gives its result; \<open>send\<close> sets the bit, for \<^verbatim>\<open>tryLock\<close> and for
  \<^verbatim>\<open>Lock\<close> alike.
\<close>

definition tryLock :: "CredentialsStore \<Rightarrow> bool" where
  "tryLock cs = (\<not> lock cs)"

definition updateCache ::
  "unmarshal \<Rightarrow> http_result \<Rightarrow> time \<Rightarrow> time \<Rightarrow> CredentialsStore \<Rightarrow> string \<Rightarrow> string
     \<Rightarrow> string \<Rightarrow> CredentialsStoreData option \<Rightarrow> bool \<Rightarrow> result outcome" where
  "updateCache unm r tc ts cs accessKey backend key csd blocking =
     (if \<not> blocking \<and> \<not> tryLock cs then Returned (cs, csd, None)
      else if blocking \<and> lock cs then Blocked
      else receive unm r tc ts (send cs accessKey backend) key csd)"

text \<open>
  The soft-refresh window of line 118:
  \<^verbatim>\<open>cs.TTL / time.Second * (100 - refreshTTLPercent) * 10 * time.Millisecond\<close>.
\<close>

definition window :: "duration \<Rightarrow> duration" where
  "window d =
     wrap64 (wrap64 (wrap64 (quo d Second * (100 - refreshTTLPercent)) * 10) * Millisecond)"

text \<open>
  The clock readings of one call of \<^verbatim>\<open>Get\<close>, in the order of the source: line 116, line
  118, lines 82/85 and line 92.
\<close>

record clock =
  nowExpiry :: time
  nowSoft :: time
  nowCreate :: time
  nowStore :: time

text \<open>The goroutine started by line 119: the arguments of its \<^verbatim>\<open>updateCache\<close> call.\<close>

datatype task = UpdateCache string string string "CredentialsStoreData option" bool

definition Get ::
  "unmarshal \<Rightarrow> http_result \<Rightarrow> clock \<Rightarrow> CredentialsStore \<Rightarrow> string \<Rightarrow> string
     \<Rightarrow> result outcome \<times> task option" where
  "Get unm r clk cs accessKey backend =
     (let key = prepareKey accessKey backend; csd = cache cs key
      in case csd of
           None \<Rightarrow>
             (updateCache unm r (nowCreate clk) (nowStore clk) cs accessKey backend key csd True,
              None)
         | Some c \<Rightarrow>
             if AccessKey c = [] then
               (updateCache unm r (nowCreate clk) (nowStore clk) cs accessKey backend key csd True,
                None)
             else if After (nowExpiry clk) (EOL c) then
               (updateCache unm r (nowCreate clk) (nowStore clk) cs accessKey backend key csd False,
                None)
             else if After (nowSoft clk + window (TTL cs)) (EOL c) then
               (Returned (cs, csd, None), Some (UpdateCache accessKey backend key csd False))
             else (Returned (cs, csd, None), None))"

text \<open>
  A body \<^verbatim>\<open>AK:SK\<close> with a two-byte access key, for the theorems that are evaluated on
  concrete input; the real format of the body is outside the given sources.
\<close>

definition exampleUnmarshal :: unmarshal where
  "exampleUnmarshal c body = (c\<lparr>AccessKey := take 2 body, SecretKey := drop 3 body\<rparr>, None)"


section \<open>Concurrent calls of \<^verbatim>\<open>Get\<close>\<close>

text \<open>
  Several goroutines run \<^verbatim>\<open>Get\<close> and \<^verbatim>\<open>updateCache\<close> on one store. A goroutine is at one
  of these points: it has entered \<^verbatim>\<open>Get\<close>; it is at the head of \<^verbatim>\<open>updateCache\<close> (line 70)
  with the arguments of the call; it holds the mutex and its request is with the service
  (line 77); it has stored the new entry and still holds the mutex (line 94); it has
  returned; or it has panicked.
\<close>

datatype thread =
    Called string string
  | AtUpdate string string string "CredentialsStoreData option" bool
  | InFlight string "CredentialsStoreData option"
  | Stored CredentialsStoreData
  | Finished "CredentialsStoreData option" "error option"
  | Crashed

text \<open>
  \<open>now\<close> is the time of the latest step, and \<open>sent\<close> logs when a request for which cache
  key left, oldest first. Neither is a variable of the program.
\<close>

record system =
  store :: CredentialsStore
  threads :: "thread list"
  now :: time
  sent :: "(time \<times> string) list"

text \<open>
  The steps: a caller enters \<^verbatim>\<open>Get\<close>; goroutine \<open>i\<close> runs lines 107 to 122; it runs lines
  70 to 76 and sends its request; the answer arrives and it runs lines 78 to 93; it runs lines
  94 to 98.
\<close>

datatype event =
    Call string string
  | Load nat
  | Acquire nat
  | Answer nat http_result
  | Unlock nat

definition setThread :: "system \<Rightarrow> nat \<Rightarrow> thread \<Rightarrow> system" where
  "setThread s i th = s\<lparr>threads := (threads s)[i := th]\<rparr>"

text \<open>The switch of \<^verbatim>\<open>Get\<close>, every clock reading of the step being its time \<open>t\<close>.\<close>

definition load :: "time \<Rightarrow> nat \<Rightarrow> string \<Rightarrow> string \<Rightarrow> system \<Rightarrow> system" where
  "load t i accessKey backend s =
     (let key = prepareKey accessKey backend; csd = cache (store s) key
      in case csd of
           None \<Rightarrow> setThread s i (AtUpdate accessKey backend key csd True)
         | Some c \<Rightarrow>
             if AccessKey c = [] then setThread s i (AtUpdate accessKey backend key csd True)
             else if After t (EOL c) then setThread s i (AtUpdate accessKey backend key csd False)
             else if After (t + window (TTL (store s))) (EOL c) then
               (setThread s i (Finished csd None))
                 \<lparr>threads := threads (setThread s i (Finished csd None))
                               @ [AtUpdate accessKey backend key csd False]\<rparr>
             else setThread s i (Finished csd None))"

text \<open>
  Lines 70 to 76. A goroutine that calls \<^verbatim>\<open>Lock\<close> on a held mutex cannot take the step. One
  whose \<^verbatim>\<open>tryLock\<close> fails returns the entry it was given.
\<close>

definition acquire ::
  "time \<Rightarrow> nat \<Rightarrow> string \<Rightarrow> string \<Rightarrow> string \<Rightarrow> CredentialsStoreData option \<Rightarrow> bool \<Rightarrow> system
     \<Rightarrow> system option" where
  "acquire t i accessKey backend key csd blocking s =
     (if \<not> blocking \<and> \<not> tryLock (store s) then Some (setThread s i (Finished csd None))
      else if blocking \<and> lock (store s) then None
      else Some ((setThread s i (InFlight key csd))
                   \<lparr>store := send (store s) accessKey backend, sent := sent s @ [(t, key)]\<rparr>))"

definition answer ::
  "unmarshal \<Rightarrow> time \<Rightarrow> nat \<Rightarrow> http_result \<Rightarrow> string \<Rightarrow> CredentialsStoreData option \<Rightarrow> system
     \<Rightarrow> system" where
  "answer unm t i r key csd s =
     (case newEntry unm r (TTL (store s)) t t csd of
        None \<Rightarrow> setThread s i Crashed
      | Some newCsd \<Rightarrow>
          (setThread s i (Stored newCsd))
            \<lparr>store := (store s)\<lparr>cache := (cache (store s))(key \<mapsto> newCsd)\<rparr>\<rparr>)"

definition unlock :: "nat \<Rightarrow> CredentialsStoreData \<Rightarrow> system \<Rightarrow> system" where
  "unlock i newCsd s =
     (setThread s i (if AccessKey newCsd = [] then Finished None (err newCsd)
                     else Finished (Some newCsd) None))
       \<lparr>store := (store s)\<lparr>lock := False\<rparr>\<rparr>"

text \<open>
  One step at time \<open>t\<close>; \<open>None\<close> when the step cannot be taken: time does not go back, the
  goroutine must exist and be at the right point, and \<^verbatim>\<open>Lock\<close> waits.
\<close>

definition exec :: "unmarshal \<Rightarrow> time \<Rightarrow> event \<Rightarrow> system \<Rightarrow> system option" where
  "exec unm t ev s =
     (if t < now s then None
      else case ev of
        Call accessKey backend \<Rightarrow>
          Some (s\<lparr>threads := threads s @ [Called accessKey backend], now := t\<rparr>)
      | Load i \<Rightarrow>
          (if i < length (threads s) then
             (case threads s ! i of
                Called accessKey backend \<Rightarrow> Some ((load t i accessKey backend s)\<lparr>now := t\<rparr>)
              | _ \<Rightarrow> None)
           else None)
      | Acquire i \<Rightarrow>
          (if i < length (threads s) then
             (case threads s ! i of
                AtUpdate accessKey backend key csd blocking \<Rightarrow>
                  map_option (\<lambda>s'. s'\<lparr>now := t\<rparr>) (acquire t i accessKey backend key csd blocking s)
              | _ \<Rightarrow> None)
           else None)
      | Answer i r \<Rightarrow>
          (if i < length (threads s) then
             (case threads s ! i of
                InFlight key csd \<Rightarrow> Some ((answer unm t i r key csd s)\<lparr>now := t\<rparr>)
              | _ \<Rightarrow> None)
           else None)
      | Unlock i \<Rightarrow>
          (if i < length (threads s) then
             (case threads s ! i of
                Stored newCsd \<Rightarrow> Some ((unlock i newCsd s)\<lparr>now := t\<rparr>)
              | _ \<Rightarrow> None)
           else None))"

fun run :: "unmarshal \<Rightarrow> (time \<times> event) list \<Rightarrow> system \<Rightarrow> system option" where
  "run unm [] s = Some s"
| "run unm ((t, ev) # evs) s =
     (case exec unm t ev s of None \<Rightarrow> None | Some s' \<Rightarrow> run unm evs s')"





section \<open>Sharding ring: sharding/sharding.go\<close>

text \<open>
  \<open>'rt\<close> is the type of the transports built outside this file (the multi-backend
  transport). A value of the interface \<^verbatim>\<open>http.RoundTripper\<close> that \<^verbatim>\<open>Pick\<close> returns is either such
  a transport or a \<^verbatim>\<open>cluster\<close> struct, which implements the interface through its embedded field.
  The consistent-hash map is the library's: its state is the list of the keys added to it,
  and its lookup \<^verbatim>\<open>Get\<close> is a parameter \<open>chGet\<close> of \<open>Pick\<close>.
\<close>

record 'rt cluster =
  RoundTripper :: 'rt
  weight :: nat
  backends :: "string list"

datatype 'rt roundTripper = Transport 'rt | Cluster "'rt cluster"

record 'rt shardsRing =
  ring :: "string list"
  shardClusterMap :: "(string \<times> 'rt cluster) list"
  allClustersRoundTripper :: 'rt
  regressionRing :: "'rt cluster list"

definition isBucketPath :: "string \<Rightarrow> bool" where
  "isBucketPath path = (let trimmedPath = Trim path ''/'' in length (Split trimmedPath ''/'') = 1)"

definition Pick ::
  "(string list \<Rightarrow> string \<Rightarrow> string) \<Rightarrow> 'rt shardsRing \<Rightarrow> string \<Rightarrow> error + 'rt roundTripper" where
  "Pick chGet sr key =
     (if isBucketPath key then Inr (Transport (allClustersRoundTripper sr))
      else let shardName = chGet (ring sr) key
           in case map_of (shardClusterMap sr) shardName of
                None \<Rightarrow> Inl (Errorf (''no cluster for shard '' @ shardName
                                      @ '', cannot handle key '' @ key))
              | Some shardCluster \<Rightarrow> Inr (Cluster shardCluster))"

text \<open>
  The claim's wording of a bucket path: exactly one non-empty segment after trimming the
  leading and trailing slashes.
\<close>

definition segments :: "string \<Rightarrow> string list" where
  "segments path = filter (\<lambda>seg. seg \<noteq> []) (Split (Trim path ''/'') ''/'')"

definition oneSegment :: "string \<Rightarrow> bool" where
  "oneSegment path = (length (segments path) = 1)"

text \<open>A stand-in for the library's lookup, for the theorems evaluated on concrete input.\<close>

definition exampleGet :: "string list \<Rightarrow> string \<Rightarrow> string" where
  "exampleGet keys key = (case keys of [] \<Rightarrow> [] | k # ks \<Rightarrow> k)"

subsection \<open>float64\<close>

text \<open>
  \<^verbatim>\<open>mapShards\<close> computes the number of shards of a cluster in \<^verbatim>\<open>float64\<close>. The values that
  arise are not negative and far inside the range of the normal numbers (at most \<open>2\<^sup>1\<^sup>2\<^sup>8\<close>, at
  least \<open>2\<^sup>-\<^sup>6\<^sup>4\<close> when not zero), so a finite value is a rational number, and an
  operation gives the exact result rounded to 53 significant bits, to the nearest, ties to
  even. \<open>exponent x\<close> is the \<open>e\<close> with \<open>2\<^sup>e \<le> x < 2\<^sup>e\<^sup>+\<^sup>1\<close>.
\<close>

function halvings :: "rat \<Rightarrow> nat" where
  "halvings x = (if 2 \<le> x then Suc (halvings (x / 2)) else 0)"
  by pat_completeness auto
termination
proof (relation "measure (\<lambda>x. nat \<lfloor>x\<rfloor>)")
  show "wf (measure (\<lambda>x::rat. nat \<lfloor>x\<rfloor>))" by simp
next
  fix x :: rat
  assume "2 \<le> x"
  then have "x / 2 \<le> x - 1" by simp
  then have "\<lfloor>x / 2\<rfloor> \<le> \<lfloor>x - 1\<rfloor>" by (rule floor_mono)
  moreover have "0 < \<lfloor>x\<rfloor>" using \<open>2 \<le> x\<close> by simp
  ultimately show "(x / 2, x) \<in> measure (\<lambda>x. nat \<lfloor>x\<rfloor>)" by simp
qed

function doublings :: "rat \<Rightarrow> nat" where
  "doublings x = (if 0 < x \<and> x < 1 then Suc (doublings (2 * x)) else 0)"
  by pat_completeness auto
termination
proof (relation "measure (\<lambda>x. nat \<lceil>1 / x\<rceil>)")
  show "wf (measure (\<lambda>x::rat. nat \<lceil>1 / x\<rceil>))" by simp
next
  fix x :: rat
  assume a: "0 < x \<and> x < 1"
  then have "1 < 1 / x" by simp
  then have c: "2 \<le> \<lceil>1 / x\<rceil>" by linarith
  have "1 / x \<le> of_int \<lceil>1 / x\<rceil>" by (rule le_of_int_ceiling)
  then have "1 / (2 * x) \<le> of_int \<lceil>1 / x\<rceil> / 2" by simp
  also have "\<dots> \<le> of_int (\<lceil>1 / x\<rceil> - 1)" using c by simp
  finally have "1 / (2 * x) \<le> of_int (\<lceil>1 / x\<rceil> - 1)" .
  then have "\<lceil>1 / (2 * x)\<rceil> \<le> \<lceil>1 / x\<rceil> - 1" by (rule ceiling_le)
  with c have "nat \<lceil>1 / (2 * x)\<rceil> < nat \<lceil>1 / x\<rceil>" by linarith
  then show "(2 * x, x) \<in> measure (\<lambda>x. nat \<lceil>1 / x\<rceil>)" by (simp only: in_measure)
qed

definition exponent :: "rat \<Rightarrow> int" where
  "exponent x = (if 1 \<le> x then int (halvings x) else - int (doublings x))"

definition round53 :: "rat \<Rightarrow> rat" where
  "round53 x =
     (if x \<le> 0 then 0
      else let u = 2 powi (exponent x - 52); m = x / u; n = \<lfloor>m\<rfloor>
           in if m - of_int n < 1 / 2 \<or> (m - of_int n = 1 / 2 \<and> even n) then of_int n * u
              else (of_int n + 1) * u)"


text \<open>The conversion \<^verbatim>\<open>float64(n)\<close> of an unsigned integer.\<close>

definition float64_of :: "nat \<Rightarrow> rat" where
  "float64_of n = round53 (of_nat n)"



subsection \<open>The ring factory\<close>







definition shardName :: "string \<Rightarrow> nat \<Rightarrow> string" where
  "shardName name i = name @ ''-'' @ Sprintd i"












section \<open>Decorators: package httphandler\<close>

text \<open>
  A request and a response, with the fields the decorators touch. \<^verbatim>\<open>http.Header\<close> maps a key
  to a list of values; \<^verbatim>\<open>Header.Set\<close> stores under the canonical form of the key, which the
  library computes: \<open>canon\<close> is a parameter. A request is taken to have a header map (not
  nil), as every request of \<^verbatim>\<open>net/http\<close> has.
\<close>

record message =
  Header :: "string \<rightharpoonup> string list"

record request = message +
  Method :: string
  URL_Scheme :: string
  URL_Host :: string
  URL_Path :: string
  Host :: string

record response = message +
  StatusCode :: nat

definition Header_Set :: "(string \<Rightarrow> string) \<Rightarrow> string \<Rightarrow> string \<Rightarrow> (string \<rightharpoonup> string list)
    \<Rightarrow> (string \<rightharpoonup> string list)" where
  "Header_Set canon k v h = h(canon k \<mapsto> [v])"

text \<open>
  The request is a pointer and a callee changes it in place, so a call gives back the request
  as it is afterwards, with the response and the error (each may be nil); or it panics.
\<close>

datatype call = Result request "response option" "string option" | Panic

text \<open>
  The round trippers: a transport \<open>Base\<close> given by what it does, and the wrappers of this
  file. \<^verbatim>\<open>loggingRoundTripper\<close> passes the request and the result through unchanged and
  writes a line through \<^verbatim>\<open>NewAccessLogMessage\<close>, which is outside the given sources; it is
  left out. A Go map is ranged over in an unspecified order: the header maps of
  \<^verbatim>\<open>headersSuplier\<close> are association lists in the order of the iteration.
\<close>

datatype roundTrip =
    Base "request \<Rightarrow> call"
  | headersSuplier "(string \<times> string) list" "(string \<times> string) list" roundTrip
  | optionsHandler roundTrip

text \<open>Lines 62 to 77 of \<^verbatim>\<open>headersSuplier.RoundTrip\<close>: the request that is passed on.\<close>

definition supplyHeader ::
  "(string \<Rightarrow> string) \<Rightarrow> string \<times> string \<Rightarrow> (string \<rightharpoonup> string list) \<Rightarrow> (string \<rightharpoonup> string list)" where
  "supplyHeader canon kv h = (case h (fst kv) of None \<Rightarrow> Header_Set canon (fst kv) (snd kv) h | Some vs \<Rightarrow> h)"

definition rewriteHost :: "(string \<Rightarrow> string) \<Rightarrow> request \<Rightarrow> request option" where
  "rewriteHost canon req =
     (if Contains (Host req) ''.s3.'' then
        (case Split (Host req) ''.s3.'' of
           [] \<Rightarrow> None
         | prefix # rest \<Rightarrow>
             let newhost = prefix @ ''.'' @ URL_Host req
             in Some (req\<lparr>Header := Header_Set canon ''Host'' newhost (Header req), Host := newhost\<rparr>))
      else Some req)"

definition outbound :: "(string \<Rightarrow> string) \<Rightarrow> (string \<times> string) list \<Rightarrow> request \<Rightarrow> request option" where
  "outbound canon requestHeaders req =
     rewriteHost canon
       (req\<lparr>URL_Scheme := ''http'',
            Header := fold (supplyHeader canon) requestHeaders (Header req)\<rparr>)"

text \<open>Lines 81 to 91: the response headers; a nil response without an error is dereferenced.\<close>

definition inbound :: "(string \<Rightarrow> string) \<Rightarrow> (string \<times> string) list \<Rightarrow> call \<Rightarrow> call" where
  "inbound canon responseHeaders c =
     (case c of
        Panic \<Rightarrow> Panic
      | Result req resp (Some e) \<Rightarrow> Result req resp (Some e)
      | Result req None None \<Rightarrow> (if responseHeaders = [] then Result req None None else Panic)
      | Result req (Some resp) None \<Rightarrow>
          Result req
            (Some (resp\<lparr>Header := fold (supplyHeader canon) responseHeaders (Header resp)\<rparr>)) None)"

text \<open>Lines 115 to 119 of \<^verbatim>\<open>optionsHandler.RoundTrip\<close>.\<close>

definition contentLength :: "(string \<Rightarrow> string) \<Rightarrow> bool \<Rightarrow> call \<Rightarrow> call" where
  "contentLength canon isOptions c =
     (case c of
        Panic \<Rightarrow> Panic
      | Result req None e \<Rightarrow> Result req None e
      | Result req (Some resp) e \<Rightarrow>
          if isOptions
          then Result req (Some (resp\<lparr>Header := Header_Set canon ''Content-Length'' ''0'' (Header resp)\<rparr>)) e
          else Result req (Some resp) e)"

fun RoundTrip :: "(string \<Rightarrow> string) \<Rightarrow> roundTrip \<Rightarrow> request \<Rightarrow> call" where
  "RoundTrip canon (Base f) req = f req"
| "RoundTrip canon (headersSuplier requestHeaders responseHeaders roundTripper) req =
     (case outbound canon requestHeaders req of
        None \<Rightarrow> Panic
      | Some req' \<Rightarrow> inbound canon responseHeaders (RoundTrip canon roundTripper req'))"
| "RoundTrip canon (optionsHandler roundTripper) req =
     (let isOptions = (Method req = ''OPTIONS'');
          req' = (if isOptions then req\<lparr>Method := ''HEAD''\<rparr> else req)
      in contentLength canon isOptions (RoundTrip canon roundTripper req'))"

type_synonym Decorator = "roundTrip \<Rightarrow> roundTrip"

definition HeadersSuplier :: "(string \<times> string) list \<Rightarrow> (string \<times> string) list \<Rightarrow> Decorator" where
  "HeadersSuplier requestHeaders responseHeaders =
     (\<lambda>roundTripper. headersSuplier requestHeaders responseHeaders roundTripper)"

definition OptionsHandler :: Decorator where
  "OptionsHandler roundTripper = optionsHandler roundTripper"

fun Decorate :: "roundTrip \<Rightarrow> Decorator list \<Rightarrow> roundTrip" where
  "Decorate roundTripper [] = roundTripper"
| "Decorate roundTripper (dec # decorators) = Decorate (dec roundTripper) decorators"

text \<open>A transport that answers 200 and leaves the request as it is, for concrete evaluation.\<close>

definition echo :: "request \<Rightarrow> call" where
  "echo req = Result req (Some \<lparr>Header = Map.empty, StatusCode = 200\<rparr>) None"

text \<open>
  Modelled from the spec: the backend's \<^verbatim>\<open>RoundTrip\<close> is outside the given sources; its test
  \<^verbatim>\<open>storages/backend_test.go\<close> is among them. Per dispatch the request is cloned, the scheme
  and the host (with the port) of its URL are overwritten with the backend's, and the path,
  the query and the headers are preserved; the test checks the URL host of the request that
  the transport receives.
\<close>

definition toBackend :: "string \<Rightarrow> string \<Rightarrow> request \<Rightarrow> request" where
  "toBackend scheme host req = req\<lparr>URL_Scheme := scheme, URL_Host := host\<rparr>"

text \<open>
  Modelled from the spec: a backend sends the rewritten clone to its transport and leaves the
  caller's request as it is. A transport error is wrapped into an error that carries the
  backend's host alongside it, and no response is returned with it (the test checks both);
  an error is a string here, so the wrapped error is the host and the error in one string.
\<close>

definition Backend :: "string \<Rightarrow> string \<Rightarrow> (request \<Rightarrow> call) \<Rightarrow> request \<Rightarrow> call" where
  "Backend scheme host transport req =
     (case transport (toBackend scheme host req) of
        Panic \<Rightarrow> Panic
      | Result out resp None \<Rightarrow> Result req resp None
      | Result out resp (Some e) \<Rightarrow> Result req None (Some (host @ '': '' @ e)))"

text \<open>
  A transport that answers 200 and reports, in the headers of the response, the \<^verbatim>\<open>Host\<close> and
  the URL host of the request it has received; for concrete evaluation.
\<close>

definition received :: "request \<Rightarrow> call" where
  "received req =
     Result req
       (Some \<lparr>Header = [''Host'' \<mapsto> [Host req], ''URL-Host'' \<mapsto> [URL_Host req]],
              StatusCode = 200\<rparr>) None"

section \<open>Properties of the credentials store\<close>

lemmas crd_defs = Get_def updateCache_def tryLock_def send_def receive_def newEntry_def
  GetFromService_def prepareKey_def zeroCsd_def After_def Let_def

lemma GetFromService_cases:
  "(\<exists>c e. GetFromService unm r = (Some c, e))
   \<or> GetFromService unm r = (None, Some ErrCredentialsNotFound)"
  by (auto simp: GetFromService_def split: http_result.splits prod.splits)

text \<open>No nil pointer is dereferenced: \<^verbatim>\<open>updateCache\<close> always has an entry to store.\<close>

lemma newEntry_Some: "\<exists>n. newEntry unm r d tc ts csd = Some n"
  using GetFromService_cases [of unm r]
  by (auto simp: newEntry_def split: option.splits)

lemma EOL_newEntry: "newEntry unm r d tc ts csd = Some n \<Longrightarrow> EOL n = ts + d"
  by (auto simp: newEntry_def)




lemma updateCache_unlocked:
  "\<not> lock cs \<Longrightarrow>
   updateCache unm r tc ts cs accessKey backend key csd blocking =
     receive unm r tc ts (send cs accessKey backend) key csd"
  by (simp add: updateCache_def tryLock_def)

lemma updateCache_locked:
  "lock cs \<Longrightarrow>
   updateCache unm r tc ts cs accessKey backend key csd blocking =
     (if blocking then Blocked else Returned (cs, csd, None))"
  by (simp add: updateCache_def tryLock_def)

lemma receive_stores:
  "newEntry unm r (TTL cs) tc ts csd = Some n \<Longrightarrow>
   receive unm r tc ts (send cs accessKey backend) key csd =
     Returned (cs\<lparr>cache := (cache cs)(key \<mapsto> n), lock := False,
                   requests := requests cs @ [(endpoint cs, accessKey, backend)]\<rparr>,
               if AccessKey n = [] then None else Some n,
               if AccessKey n = [] then err n else None)"
  by (simp add: receive_def send_def)

subsection \<open>C1: a 404 is stored as a sentinel, and the sentinel is refreshed on every call\<close>




subsection \<open>C2: an expired entry is refreshed without waiting for the mutex\<close>

text \<open>
  C2 as stated fails. The entry has an access key and is past its EOL, and another refresh
  holds the mutex: the call does not wait, sends nothing, and returns the expired entry with
  no error.
\<close>

theorem Get_expired_lock_held_counterexample:
  "Get exampleUnmarshal (Response 200 ''AK:S2'')
       \<lparr>nowExpiry = 5000, nowSoft = 5000, nowCreate = 5000, nowStore = 5000\<rparr>
       \<lparr>endpoint = ''crd'',
        cache = [''AK_____b1'' \<mapsto> \<lparr>AccessKey = ''AK'', SecretKey = ''SK'', EOL = 4000, err = None\<rparr>],
        TTL = 10000000000, lock = True, requests = []\<rparr> ''AK'' ''b1''
   = (Returned (\<lparr>endpoint = ''crd'',
                 cache = [''AK_____b1'' \<mapsto> \<lparr>AccessKey = ''AK'', SecretKey = ''SK'', EOL = 4000,
                                           err = None\<rparr>],
                 TTL = 10000000000, lock = True, requests = []\<rparr>,
                Some \<lparr>AccessKey = ''AK'', SecretKey = ''SK'', EOL = 4000, err = None\<rparr>, None),
      None)"
  by (simp add: crd_defs)

text \<open>
  C2 (amended). For every \<^verbatim>\<open>Get\<close> where a cached entry exists with non-empty access key and
  the current time is past the entry's EOL, \<^verbatim>\<open>Get\<close> performs a synchronous refresh that
  does not wait for the mutex (\<^verbatim>\<open>updateCache\<close> with \<open>blocking = false\<close>). If the mutex is held,
  the cached entry is returned unchanged, with no error and without contacting the service.
  If the mutex is free, the service is contacted once, the entry that the refresh stores has
  \<open>EOL = now + TTL\<close>, and it is returned when its access key is non-empty; otherwise no
  entry is returned and the entry's error is.
\<close>

theorem Get_expired:
  assumes "cache cs (prepareKey accessKey backend) = Some c"
    and "AccessKey c \<noteq> []"
    and "After (nowExpiry clk) (EOL c)"
  shows "Get unm r clk cs accessKey backend
           = (updateCache unm r (nowCreate clk) (nowStore clk) cs accessKey backend
                (prepareKey accessKey backend) (Some c) False, None)
       \<and> (lock cs \<longrightarrow>
            Get unm r clk cs accessKey backend = (Returned (cs, Some c, None), None))
       \<and> (\<not> lock cs \<longrightarrow>
            (\<exists>n. Get unm r clk cs accessKey backend
                   = (Returned (cs\<lparr>cache := (cache cs)(prepareKey accessKey backend \<mapsto> n),
                                    lock := False,
                                    requests := requests cs @ [(endpoint cs, accessKey, backend)]\<rparr>,
                                if AccessKey n = [] then None else Some n,
                                if AccessKey n = [] then err n else None), None)
                \<and> EOL n = nowStore clk + TTL cs))"
proof -
  let ?key = "prepareKey accessKey backend"
  have g: "Get unm r clk cs accessKey backend
           = (updateCache unm r (nowCreate clk) (nowStore clk) cs accessKey backend ?key
                (Some c) False, None)"
    using assms by (simp add: Get_def Let_def)
  obtain n where n: "newEntry unm r (TTL cs) (nowCreate clk) (nowStore clk) (Some c) = Some n"
    using newEntry_Some by blast
  have "\<not> lock cs \<Longrightarrow>
        updateCache unm r (nowCreate clk) (nowStore clk) cs accessKey backend ?key (Some c) False
          = Returned (cs\<lparr>cache := (cache cs)(?key \<mapsto> n), lock := False,
                         requests := requests cs @ [(endpoint cs, accessKey, backend)]\<rparr>,
                      if AccessKey n = [] then None else Some n,
                      if AccessKey n = [] then err n else None)"
    by (simp add: updateCache_unlocked receive_stores [OF n])
  with g EOL_newEntry [OF n] show ?thesis
    by (auto simp: updateCache_locked)
qed

text \<open>An expired entry, the mutex free, the service answering 200.\<close>

theorem Get_expired_witness:
  "cache \<lparr>endpoint = ''crd'',
          cache = [''AK_____b1'' \<mapsto> \<lparr>AccessKey = ''AK'', SecretKey = ''SK'', EOL = 4000, err = None\<rparr>],
          TTL = 10000000000, lock = False, requests = []\<rparr> (prepareKey ''AK'' ''b1'')
     = Some \<lparr>AccessKey = ''AK'', SecretKey = ''SK'', EOL = 4000, err = None\<rparr>
   \<and> After 5000 4000
   \<and> (\<exists>cs' v e. Get exampleUnmarshal (Response 200 ''AK:S2'')
               \<lparr>nowExpiry = 5000, nowSoft = 5000, nowCreate = 5000, nowStore = 5000\<rparr>
               \<lparr>endpoint = ''crd'',
                cache = [''AK_____b1'' \<mapsto> \<lparr>AccessKey = ''AK'', SecretKey = ''SK'', EOL = 4000,
                                          err = None\<rparr>],
                TTL = 10000000000, lock = False, requests = []\<rparr> ''AK'' ''b1''
            = (Returned (cs', v, e), None)
          \<and> requests cs' = [(''crd'', ''AK'', ''b1'')])"
proof -
  let ?c = "\<lparr>AccessKey = ''AK'', SecretKey = ''SK'', EOL = 4000, err = None\<rparr>"
  let ?cs = "\<lparr>endpoint = ''crd'', cache = [''AK_____b1'' \<mapsto> ?c],
             TTL = 10000000000, lock = False, requests = []\<rparr>"
  let ?clk = "\<lparr>nowExpiry = 5000, nowSoft = 5000, nowCreate = 5000, nowStore = 5000\<rparr>"
  have 1: "cache ?cs (prepareKey ''AK'' ''b1'') = Some ?c" by (simp add: prepareKey_def)
  have 2: "AccessKey ?c \<noteq> []" by simp
  have 3: "After (nowExpiry ?clk) (EOL ?c)" by (simp add: After_def)
  have 4: "\<not> lock ?cs" by simp
  from Get_expired [OF 1 2 3, of exampleUnmarshal "Response 200 ''AK:S2''"] 4
  obtain n where "Get exampleUnmarshal (Response 200 ''AK:S2'') ?clk ?cs ''AK'' ''b1''
      = (Returned (?cs\<lparr>cache := (cache ?cs)(prepareKey ''AK'' ''b1'' \<mapsto> n), lock := False,
                        requests := requests ?cs @ [(endpoint ?cs, ''AK'', ''b1'')]\<rparr>,
                   if AccessKey n = [] then None else Some n,
                   if AccessKey n = [] then err n else None), None)"
    by blast
  then have "\<exists>cs' v e. Get exampleUnmarshal (Response 200 ''AK:S2'') ?clk ?cs ''AK'' ''b1''
      = (Returned (cs', v, e), None) \<and> requests cs' = [(''crd'', ''AK'', ''b1'')]"
    by simp
  moreover have "After 5000 4000" by (simp add: After_def)
  ultimately show ?thesis using 1 by blast
qed

subsection \<open>C6: the soft-refresh threshold\<close>

lemma window_default: "window ttl = 2 * Second"
  by (simp add: window_def ttl_def quo_def Second_def Millisecond_def refreshTTLPercent_def
        wrap64_def)

text \<open>
  C6 at a TTL of 1.5 s. The entry expires at 2 s and the clock reads 1.75 s, which is past
  \<open>EOL - (1 - 0.80) \<sqdot> TTL = 1.7 s\<close>: the claim has a background refresh started. The code
  computes the window from the whole seconds of the TTL, 200 ms here instead of 300 ms, and
  starts none.
\<close>

theorem Get_fractional_TTL_no_refresh:
  "Get exampleUnmarshal (Response 200 ''AK:S2'')
       \<lparr>nowExpiry = 1750000000, nowSoft = 1750000000, nowCreate = 1750000000,
        nowStore = 1750000000\<rparr>
       \<lparr>endpoint = ''crd'',
        cache = [''AK_____b1'' \<mapsto> \<lparr>AccessKey = ''AK'', SecretKey = ''SK'', EOL = 2000000000,
                                  err = None\<rparr>],
        TTL = 1500000000, lock = False, requests = []\<rparr> ''AK'' ''b1''
   = (Returned (\<lparr>endpoint = ''crd'',
                 cache = [''AK_____b1'' \<mapsto> \<lparr>AccessKey = ''AK'', SecretKey = ''SK'',
                                           EOL = 2000000000, err = None\<rparr>],
                 TTL = 1500000000, lock = False, requests = []\<rparr>,
                Some \<lparr>AccessKey = ''AK'', SecretKey = ''SK'', EOL = 2000000000, err = None\<rparr>, None),
      None)
   \<and> (2000000000 :: int) - (100 - refreshTTLPercent) * 1500000000 div 100 < 1750000000"
  by (simp add: crd_defs window_def quo_def wrap64_def Second_def Millisecond_def
        refreshTTLPercent_def)

subsection \<open>C7: failures other than 404\<close>




subsection \<open>C10: a TTL below one second has no soft-refresh window\<close>

lemma quo_small: "- Second < d \<Longrightarrow> d < Second \<Longrightarrow> quo d Second = 0"
  by (simp add: quo_def Second_def)

lemma window_small: "- Second < d \<Longrightarrow> d < Second \<Longrightarrow> window d = 0"
  by (simp add: window_def quo_small wrap64_def)

text \<open>
  C10 as stated fails in its last clause. The TTL is half a second and the entry expires at
  4000. The clock reads 4000 at line 116, so the entry is not yet past its EOL, and 4001 at
  line 118: a background refresh is started, for a TTL below one second.
\<close>

theorem subsecond_TTL_refresh_counterexample:
  "Get exampleUnmarshal (Response 200 ''AK:S2'')
       \<lparr>nowExpiry = 4000, nowSoft = 4001, nowCreate = 4001, nowStore = 4001\<rparr>
       \<lparr>endpoint = ''crd'',
        cache = [''AK_____b1'' \<mapsto> \<lparr>AccessKey = ''AK'', SecretKey = ''SK'', EOL = 4000, err = None\<rparr>],
        TTL = 500000000, lock = False, requests = []\<rparr> ''AK'' ''b1''
   = (Returned (\<lparr>endpoint = ''crd'',
                 cache = [''AK_____b1'' \<mapsto> \<lparr>AccessKey = ''AK'', SecretKey = ''SK'', EOL = 4000,
                                           err = None\<rparr>],
                 TTL = 500000000, lock = False, requests = []\<rparr>,
                Some \<lparr>AccessKey = ''AK'', SecretKey = ''SK'', EOL = 4000, err = None\<rparr>, None),
      Some (UpdateCache ''AK'' ''b1'' ''AK_____b1''
              (Some \<lparr>AccessKey = ''AK'', SecretKey = ''SK'', EOL = 4000, err = None\<rparr>) False))
   \<and> (500000000 :: int) < Second"
  by (simp add: crd_defs window_def quo_def wrap64_def Second_def Millisecond_def
        refreshTTLPercent_def)

text \<open>
  C10 (amended). For a store whose TTL is shorter than one second (and above minus one
  second, as every TTL that is not negative is), \<^verbatim>\<open>cs.TTL / time.Second\<close> is 0 and the
  soft-refresh window of \<^verbatim>\<open>Get\<close> is exactly zero. \<^verbatim>\<open>Get\<close> then starts a background refresh
  exactly when the entry has an access key, the clock was not past its EOL at line 116 and
  is past it at line 118: never before the entry has expired, and not at all when the clock
  reads the same at both lines.
\<close>

theorem subsecond_TTL_never_refreshes_early:
  assumes "- Second < TTL cs" and "TTL cs < Second"
  shows "quo (TTL cs) Second = 0
       \<and> window (TTL cs) = 0
       \<and> (snd (Get unm r clk cs accessKey backend) \<noteq> None \<longleftrightarrow>
            (\<exists>c. cache cs (prepareKey accessKey backend) = Some c \<and> AccessKey c \<noteq> []
                 \<and> \<not> After (nowExpiry clk) (EOL c) \<and> After (nowSoft clk) (EOL c)))
       \<and> (nowSoft clk \<le> nowExpiry clk \<longrightarrow> snd (Get unm r clk cs accessKey backend) = None)"
  using assms
  by (auto simp: quo_small window_small Get_def Let_def After_def split: option.splits if_splits)

text \<open>A TTL of half a second, and an entry with 1 ns left to live at both readings.\<close>

theorem subsecond_TTL_never_refreshes_early_witness:
  "- Second < (500000000 :: int) \<and> (500000000 :: int) < Second
   \<and> window 500000000 = 0
   \<and> (3999 :: int) \<le> 3999
   \<and> snd (Get exampleUnmarshal (Response 200 ''AK:S2'')
             \<lparr>nowExpiry = 3999, nowSoft = 3999, nowCreate = 3999, nowStore = 3999\<rparr>
             \<lparr>endpoint = ''crd'',
              cache = [''AK_____b1'' \<mapsto> \<lparr>AccessKey = ''AK'', SecretKey = ''SK'', EOL = 4000,
                                        err = None\<rparr>],
              TTL = 500000000, lock = False, requests = []\<rparr> ''AK'' ''b1'') = None"
  using subsecond_TTL_never_refreshes_early [where cs = "\<lparr>endpoint = ''crd'',
              cache = [''AK_____b1'' \<mapsto> \<lparr>AccessKey = ''AK'', SecretKey = ''SK'', EOL = 4000,
                                        err = None\<rparr>],
              TTL = 500000000, lock = False, requests = []\<rparr>"
      and unm = exampleUnmarshal and r = "Response 200 ''AK:S2''" and accessKey = "''AK''"
      and backend = "''b1''"
      and clk = "\<lparr>nowExpiry = 3999, nowSoft = 3999, nowCreate = 3999, nowStore = 3999\<rparr>"]
  by (simp add: Second_def)

section \<open>Properties of concurrent calls\<close>


text \<open>
  The steps agree with \<^verbatim>\<open>Get\<close> as a function: a caller that runs alone on a free mutex and
  refreshes ends with the result and the store that \<open>Get\<close> gives.
\<close>

lemma steps_agree_with_Get:
  assumes "\<not> lock (store s)" and "now s \<le> t"
    and "case cache (store s) (prepareKey accessKey backend) of
           None \<Rightarrow> True | Some c \<Rightarrow> AccessKey c = [] \<or> After t (EOL c)"
  shows "\<exists>cs' v e.
           Get unm r \<lparr>nowExpiry = t, nowSoft = t, nowCreate = t, nowStore = t\<rparr> (store s)
             accessKey backend = (Returned (cs', v, e), None)
         \<and> run unm [(t, Call accessKey backend), (t, Load (length (threads s))),
                     (t, Acquire (length (threads s))), (t, Answer (length (threads s)) r),
                     (t, Unlock (length (threads s)))] s
             = Some \<lparr>store = cs', threads = threads s @ [Finished v e], now = t,
                     sent = sent s @ [(t, prepareKey accessKey backend)]\<rparr>"
proof -
  let ?key = "prepareKey accessKey backend"
  let ?csd = "cache (store s) ?key"
  obtain n where n: "newEntry unm r (TTL (store s)) t t ?csd = Some n"
    using newEntry_Some by blast
  let ?cs' = "(store s)\<lparr>cache := (cache (store s))(?key \<mapsto> n), lock := False,
                requests := requests (store s) @ [(endpoint (store s), accessKey, backend)]\<rparr>"
  let ?v = "if AccessKey n = [] then None else Some n"
  let ?e = "if AccessKey n = [] then err n else None"
  have g: "Get unm r \<lparr>nowExpiry = t, nowSoft = t, nowCreate = t, nowStore = t\<rparr> (store s)
             accessKey backend = (Returned (?cs', ?v, ?e), None)"
  proof (cases ?csd)
    case None
    with n have "newEntry unm r (TTL (store s)) t t None = Some n" by simp
    from receive_stores [OF this] None assms(1) show ?thesis
      by (simp add: Get_def Let_def updateCache_unlocked)
  next
    case (Some c)
    with n have "newEntry unm r (TTL (store s)) t t (Some c) = Some n" by simp
    from receive_stores [OF this] Some assms(1,3) show ?thesis
      by (auto simp: Get_def Let_def updateCache_unlocked)
  qed
  let ?i = "length (threads s)"
  let ?s1 = "s\<lparr>threads := threads s @ [Called accessKey backend], now := t\<rparr>"
  have 1: "exec unm t (Call accessKey backend) s = Some ?s1"
    using assms(2) by (simp add: exec_def)
  have "\<exists>blocking. load t ?i accessKey backend ?s1
      = s\<lparr>threads := threads s @ [AtUpdate accessKey backend ?key ?csd blocking], now := t\<rparr>"
  proof (cases ?csd)
    case None
    then have "load t ?i accessKey backend ?s1
      = s\<lparr>threads := threads s @ [AtUpdate accessKey backend ?key ?csd True], now := t\<rparr>"
      by (simp add: load_def setThread_def Let_def)
    then show ?thesis ..
  next
    case (Some c)
    with assms(3) have "load t ?i accessKey backend ?s1
      = s\<lparr>threads := threads s @ [AtUpdate accessKey backend ?key ?csd (AccessKey c = [])],
           now := t\<rparr>"
      by (auto simp: load_def setThread_def Let_def)
    then show ?thesis ..
  qed
  then obtain blocking where bl: "load t ?i accessKey backend ?s1
      = s\<lparr>threads := threads s @ [AtUpdate accessKey backend ?key ?csd blocking], now := t\<rparr>"
    by blast
  let ?s2 = "s\<lparr>threads := threads s @ [AtUpdate accessKey backend ?key ?csd blocking], now := t\<rparr>"
  have 2: "exec unm t (Load ?i) ?s1 = Some ?s2"
    using bl by (simp add: exec_def)
  let ?s3 = "s\<lparr>threads := threads s @ [InFlight ?key ?csd], now := t,
               store := send (store s) accessKey backend, sent := sent s @ [(t, ?key)]\<rparr>"
  have 3: "exec unm t (Acquire ?i) ?s2 = Some ?s3"
    using assms(1) by (simp add: exec_def acquire_def tryLock_def setThread_def)
  let ?s4 = "s\<lparr>threads := threads s @ [Stored n], now := t,
               store := (send (store s) accessKey backend)\<lparr>cache := (cache (store s))(?key \<mapsto> n)\<rparr>,
               sent := sent s @ [(t, ?key)]\<rparr>"
  have 4: "exec unm t (Answer ?i r) ?s3 = Some ?s4"
    using n by (simp add: exec_def answer_def setThread_def send_def)
  let ?s5 = "\<lparr>store = ?cs', threads = threads s @ [Finished ?v ?e], now = t,
               sent = sent s @ [(t, ?key)]\<rparr>"
  have 5: "exec unm t (Unlock ?i) ?s4 = Some ?s5"
    by (simp add: exec_def unlock_def setThread_def send_def)
  from 1 2 3 4 5 have "run unm [(t, Call accessKey backend), (t, Load ?i), (t, Acquire ?i),
                                (t, Answer ?i r), (t, Unlock ?i)] s = Some ?s5"
    by simp
  with g show ?thesis by blast
qed















subsection \<open>C8: one request in flight, not one request per key\<close>




section \<open>Properties of the sharding ring\<close>

lemma genSplit_single:
  "genSplit [s] cur (c # cs) =
     (if c = s then rev cur # genSplit [s] [] cs else genSplit [s] (c # cur) cs)"
  by simp

declare genSplit.simps(2) [simp del]

lemma genSplit_no_sep: "s \<notin> set t \<Longrightarrow> genSplit [s] cur t = [rev cur @ t]"
  by (induction t arbitrary: cur) (auto simp: genSplit_single)

lemma genSplit_not_Nil: "genSplit [s] cur t \<noteq> []"
  by (induction t arbitrary: cur) (auto simp: genSplit_single)

lemma genSplit_last_nonempty:
  "t \<noteq> [] \<Longrightarrow> last t \<noteq> s \<Longrightarrow> 1 \<le> length (filter (\<lambda>p. p \<noteq> []) (genSplit [s] cur t))"
proof (induction t arbitrary: cur)
  case Nil
  then show ?case by simp
next
  case (Cons c cs)
  show ?case
  proof (cases "cs = []")
    case True
    with Cons.prems show ?thesis by (simp add: genSplit_single)
  next
    case False
    with Cons.prems have "last cs \<noteq> s" by simp
    with False Cons.IH show ?thesis by (simp add: genSplit_single)
  qed
qed

lemma genSplit_two_nonempty:
  "s \<in> set t \<Longrightarrow> last t \<noteq> s \<Longrightarrow> cur \<noteq> [] \<or> hd t \<noteq> s \<Longrightarrow>
   2 \<le> length (filter (\<lambda>p. p \<noteq> []) (genSplit [s] cur t))"
proof (induction t arbitrary: cur)
  case Nil
  then show ?case by simp
next
  case (Cons c cs)
  show ?case
  proof (cases "c = s")
    case True
    with Cons.prems have cur: "cur \<noteq> []" by simp
    from True Cons.prems have cs: "cs \<noteq> []" "last cs \<noteq> s" by (auto split: if_splits)
    from genSplit_last_nonempty [OF cs, of "[]"] cur True show ?thesis
      by (simp add: genSplit_single)
  next
    case False
    with Cons.prems have "s \<in> set cs" by simp
    moreover from this Cons.prems have "last cs \<noteq> s" by (auto split: if_splits)
    ultimately have "2 \<le> length (filter (\<lambda>p. p \<noteq> []) (genSplit [s] (c # cur) cs))"
      by (intro Cons.IH) simp_all
    with False show ?thesis by (simp add: genSplit_single)
  qed
qed

lemma genSplit_length_one: "length (genSplit [s] cur t) = Suc 0 \<longleftrightarrow> s \<notin> set t"
proof (induction t arbitrary: cur)
  case Nil
  then show ?case by simp
next
  case (Cons c cs)
  with genSplit_not_Nil [of s "[]" cs] show ?case by (simp add: genSplit_single)
qed

lemma dropWhile_keeps_last:
  "xs \<noteq> [] \<Longrightarrow> \<not> P (last xs) \<Longrightarrow> dropWhile P xs \<noteq> [] \<and> last (dropWhile P xs) = last xs"
  by (induction xs) auto

lemma trim_ends:
  assumes "rev (dropWhile P (rev (dropWhile P p))) = t" and "t \<noteq> []"
  shows "\<not> P (hd t) \<and> \<not> P (last t)"
proof -
  define d where "d = dropWhile P p"
  define r where "r = dropWhile P (rev d)"
  from assms have t: "t = rev r" and r: "r \<noteq> []" by (auto simp: d_def r_def)
  from r have d: "d \<noteq> []" by (auto simp: r_def)
  then have "\<not> P (hd d)" unfolding d_def by (rule hd_dropWhile)
  with d have "\<not> P (last (rev d))" by (simp add: last_rev)
  with d have "last r = last (rev d)" unfolding r_def by (simp add: dropWhile_keeps_last)
  with d \<open>\<not> P (hd d)\<close> have 1: "\<not> P (last r)" by (simp add: last_rev)
  from r have 2: "\<not> P (hd r)" unfolding r_def by (rule hd_dropWhile)
  from 1 2 r show ?thesis by (simp add: t hd_rev last_rev)
qed

lemma Trim_ends:
  "Trim p [s] = [] \<or> (hd (Trim p [s]) \<noteq> s \<and> last (Trim p [s]) \<noteq> s)"
  using trim_ends [of "\<lambda>c. c \<in> set [s]" p "Trim p [s]"] by (auto simp: Trim_def)

lemma isBucketPath_iff: "isBucketPath path \<longleftrightarrow> CHR ''/'' \<notin> set (Trim path ''/'')"
  by (simp add: isBucketPath_def Split_def genSplit_length_one)

lemma isBucketPath_segments: "isBucketPath path \<longleftrightarrow> length (segments path) \<le> 1"
proof
  assume "isBucketPath path"
  then have "CHR ''/'' \<notin> set (Trim path ''/'')" by (simp add: isBucketPath_iff)
  then show "length (segments path) \<le> 1"
    by (simp add: segments_def Split_def genSplit_no_sep)
next
  assume a: "length (segments path) \<le> 1"
  show "isBucketPath path"
  proof (rule ccontr)
    assume "\<not> isBucketPath path"
    then have m: "CHR ''/'' \<in> set (Trim path ''/'')" by (simp add: isBucketPath_iff)
    then have "Trim path ''/'' \<noteq> []" by auto
    with Trim_ends [of path "CHR ''/''"]
    have "hd (Trim path ''/'') \<noteq> CHR ''/''" "last (Trim path ''/'') \<noteq> CHR ''/''" by auto
    with m have "2 \<le> length (filter (\<lambda>p. p \<noteq> []) (genSplit ''/'' [] (Trim path ''/'')))"
      by (intro genSplit_two_nonempty) simp_all
    with a show False by (simp add: segments_def Split_def)
  qed
qed

subsection \<open>C3: which keys go to all clusters\<close>

text \<open>
  C3 as stated fails at the root path: \<^verbatim>\<open>/\<close> has no non-empty segment, so it is not a
  bucket path in the claim's sense, and \<^verbatim>\<open>Pick\<close> returns the all-clusters transport for it.
\<close>

theorem Pick_root_counterexample:
  "Pick exampleGet \<lparr>ring = [], shardClusterMap = [], allClustersRoundTripper = ''all'',
                     regressionRing = []\<rparr> ''/'' = Inr (Transport ''all'')
   \<and> segments ''/'' = [] \<and> \<not> oneSegment ''/''"
  by (simp add: Pick_def isBucketPath_def Trim_def Split_def segments_def oneSegment_def genSplit_single)

text \<open>
  C3 (amended). \<^verbatim>\<open>Pick(key)\<close> returns the all-clusters transport if and only if the path has
  at most one non-empty segment after trimming leading and trailing slashes: exactly one, or
  none (the empty path and the paths made of slashes only). For every other key, \<^verbatim>\<open>Pick\<close>
  looks the key up on the consistent-hash ring and returns the cluster that the shard-cluster
  map holds for that shard name; it fails with an error when the map holds none.
\<close>

theorem Pick_routes:
  "(Pick chGet sr key = Inr (Transport (allClustersRoundTripper sr))
      \<longleftrightarrow> oneSegment key \<or> segments key = [])
   \<and> (\<not> (oneSegment key \<or> segments key = []) \<longrightarrow>
        Pick chGet sr key =
          (case map_of (shardClusterMap sr) (chGet (ring sr) key) of
             Some shardCluster \<Rightarrow> Inr (Cluster shardCluster)
           | None \<Rightarrow> Inl (Errorf (''no cluster for shard '' @ chGet (ring sr) key
                                   @ '', cannot handle key '' @ key))))"
proof -
  have "oneSegment key \<or> segments key = [] \<longleftrightarrow> isBucketPath key"
    by (auto simp: isBucketPath_segments oneSegment_def le_Suc_eq)
  then show ?thesis
    by (auto simp: Pick_def Let_def split: option.splits)
qed

text \<open>An object path on a ring of one shard.\<close>

theorem Pick_routes_witness:
  "\<not> (oneSegment ''/bucket/obj'' \<or> segments ''/bucket/obj'' = [])
   \<and> Pick exampleGet
        \<lparr>ring = [''A-0''],
         shardClusterMap = [(''A-0'', \<lparr>RoundTripper = ''rtA'', weight = 1, backends = [''a:80'']\<rparr>)],
         allClustersRoundTripper = ''all'', regressionRing = []\<rparr> ''/bucket/obj''
       = Inr (Cluster \<lparr>RoundTripper = ''rtA'', weight = 1, backends = [''a:80'']\<rparr>)"
proof -
  have s: "segments ''/bucket/obj'' = [''bucket'', ''obj'']"
    by (simp add: segments_def Trim_def Split_def genSplit_single)
  then have n: "\<not> (oneSegment ''/bucket/obj'' \<or> segments ''/bucket/obj'' = [])"
    by (simp add: oneSegment_def)
  from Pick_routes [of exampleGet "\<lparr>ring = [''A-0''],
         shardClusterMap = [(''A-0'', \<lparr>RoundTripper = ''rtA'', weight = 1, backends = [''a:80'']\<rparr>)],
         allClustersRoundTripper = ''all'', regressionRing = []\<rparr>" "''/bucket/obj''"] n
  show ?thesis by (simp add: exampleGet_def)
qed

section \<open>Properties of the decorators\<close>

subsection \<open>C4: the order in which \<^verbatim>\<open>Decorate\<close> nests the decorators\<close>

text \<open>
  C4 as stated fails. Two header suppliers are listed, the first supplying \<^verbatim>\<open>Via: first\<close> and
  the second \<^verbatim>\<open>Via: second\<close>; a supplier sets a header only if it is absent. The wrapper built
  has the second-listed decorator outermost, and the transport receives \<^verbatim>\<open>Via: second\<close>: the
  second-listed decorator has run first on the request.
\<close>

theorem Decorate_first_outermost_counterexample:
  "Decorate (Base echo) [HeadersSuplier [(''Via'', ''first'')] [], HeadersSuplier [(''Via'', ''second'')] []]
     = headersSuplier [(''Via'', ''second'')] [] (headersSuplier [(''Via'', ''first'')] [] (Base echo))
   \<and> RoundTrip id
        (Decorate (Base echo) [HeadersSuplier [(''Via'', ''first'')] [], HeadersSuplier [(''Via'', ''second'')] []])
        \<lparr>Header = Map.empty, Method = ''GET'', URL_Scheme = ''https'', URL_Host = ''backend:8080'',
         URL_Path = ''/b/o'', Host = ''proxy''\<rparr>
     = Result \<lparr>Header = [''Via'' \<mapsto> [''second'']], Method = ''GET'', URL_Scheme = ''http'',
               URL_Host = ''backend:8080'', URL_Path = ''/b/o'', Host = ''proxy''\<rparr>
         (Some \<lparr>Header = Map.empty, StatusCode = 200\<rparr>) None"
  by (simp add: HeadersSuplier_def outbound_def rewriteHost_def supplyHeader_def Header_Set_def
        inbound_def echo_def)

text \<open>
  C4 (amended). \<^verbatim>\<open>Decorate(roundTripper, d1, ..., dn)\<close> applies the decorators from left to
  right, so that the last-listed decorator \<open>dn\<close> is the outermost wrapper: its \<^verbatim>\<open>RoundTrip\<close>
  runs first on the inbound request and last on the response. The first-listed decorator
  \<open>d1\<close> wraps the given transport directly and is the innermost.
\<close>

theorem Decorate_last_outermost:
  "Decorate roundTripper (decorators @ [dec]) = dec (Decorate roundTripper decorators)
   \<and> Decorate roundTripper (dec # decorators) = Decorate (dec roundTripper) decorators
   \<and> Decorate roundTripper decorators = foldr (\<lambda>d rt. d rt) (rev decorators) roundTripper"
proof (intro conjI)
  show "Decorate roundTripper (decorators @ [dec]) = dec (Decorate roundTripper decorators)"
    by (induction decorators arbitrary: roundTripper) simp_all
  show "Decorate roundTripper (dec # decorators) = Decorate (dec roundTripper) decorators"
    by simp
  show "Decorate roundTripper decorators = foldr (\<lambda>d rt. d rt) (rev decorators) roundTripper"
    by (induction decorators arbitrary: roundTripper) simp_all
qed

subsection \<open>C9: the Host of a virtual-hosted bucket\<close>

lemma genSplit_hd:
  "sep \<noteq> [] \<Longrightarrow> Contains s sep \<Longrightarrow>
   \<exists>p rest more. genSplit sep cur s = (rev cur @ p) # more \<and> s = p @ sep @ rest
      \<and> (\<forall>q r. s = q @ sep @ r \<longrightarrow> length p \<le> length q)"
proof (induction s arbitrary: cur)
  case Nil
  then show ?case by simp
next
  case (Cons c cs)
  show ?case
  proof (cases "take (length sep) (c # cs) = sep")
    case True
    have "c # cs = [] @ sep @ drop (length sep) (c # cs)"
      using True append_take_drop_id [of "length sep" "c # cs"] by simp
    with True Cons.prems(1) show ?thesis
      by (simp add: genSplit.simps(2)) blast
  next
    case False
    with Cons.prems have "Contains cs sep" by simp
    from Cons.IH [OF Cons.prems(1) this, of "c # cur"]
    obtain p rest more where g: "genSplit sep (c # cur) cs = (rev (c # cur) @ p) # more"
      and s: "cs = p @ sep @ rest" and m: "\<forall>q r. cs = q @ sep @ r \<longrightarrow> length p \<le> length q"
      by blast
    have "length (c # p) \<le> length q" if "c # cs = q @ sep @ r" for q r
    proof (cases q)
      case Nil
      with that have "take (length sep) (c # cs) = sep" by simp
      with False show ?thesis by simp
    next
      case (Cons a q')
      with that have "cs = q' @ sep @ r" by simp
      with m Cons show ?thesis by simp
    qed
    then have "\<forall>q r. c # cs = q @ sep @ r \<longrightarrow> length (c # p) \<le> length q"
      by blast
    moreover have "genSplit sep cur (c # cs) = (rev cur @ c # p) # more"
      using g False by (simp add: genSplit.simps(2))
    moreover have "c # cs = (c # p) @ sep @ rest"
      using s by simp
    ultimately show ?thesis
      by blast
  qed
qed

lemma virtual_host_example:
  "outbound id [] \<lparr>Header = Map.empty, Method = ''GET'', URL_Scheme = ''https'',
                   URL_Host = ''localhost:8080'', URL_Path = ''/o'',
                   Host = ''bucket.s3.region.example''\<rparr>
   = Some \<lparr>Header = [''Host'' \<mapsto> [''bucket.localhost:8080'']], Method = ''GET'',
           URL_Scheme = ''http'', URL_Host = ''localhost:8080'', URL_Path = ''/o'',
           Host = ''bucket.localhost:8080''\<rparr>"
  by (simp add: outbound_def rewriteHost_def Split_def genSplit.simps(2) Header_Set_def Let_def)

text \<open>
  C9 as stated fails. \<^verbatim>\<open>NewHandler\<close> wraps the decorators around the ring, so
  \<^verbatim>\<open>headersSuplier\<close> runs before a backend has written its host into the URL. A request for
  \<^verbatim>\<open>bucket.s3.region.example\<close> comes in with the URL host \<^verbatim>\<open>localhost:8080\<close> and is sent on to
  the backend \<^verbatim>\<open>someremote.backend:8080\<close>: the transport of the backend receives the URL host
  of the backend and \<^verbatim>\<open>Host = bucket.localhost:8080\<close>, not \<^verbatim>\<open>bucket.someremote.backend:8080\<close>.
\<close>

theorem Host_joined_with_inbound_URL_host_counterexample:
  "RoundTrip id
     (headersSuplier [] [] (Base (Backend ''http'' ''someremote.backend:8080'' received)))
     \<lparr>Header = Map.empty, Method = ''GET'', URL_Scheme = ''http'', URL_Host = ''localhost:8080'',
      URL_Path = ''/o'', Host = ''bucket.s3.region.example''\<rparr>
   = Result \<lparr>Header = [''Host'' \<mapsto> [''bucket.localhost:8080'']], Method = ''GET'',
             URL_Scheme = ''http'', URL_Host = ''localhost:8080'', URL_Path = ''/o'',
             Host = ''bucket.localhost:8080''\<rparr>
       (Some \<lparr>Header = [''Host'' \<mapsto> [''bucket.localhost:8080''],
                        ''URL-Host'' \<mapsto> [''someremote.backend:8080'']],
              StatusCode = 200\<rparr>) None"
  by (simp add: outbound_def rewriteHost_def Split_def genSplit.simps(2) Header_Set_def Let_def
        inbound_def Backend_def toBackend_def received_def)

text \<open>
  C9 (amended). For every request whose \<^verbatim>\<open>Host\<close> contains \<^verbatim>\<open>.s3.\<close>, the request that
  \<^verbatim>\<open>headersSuplier\<close> passes on has its \<^verbatim>\<open>Host\<close> field and its \<^verbatim>\<open>Host\<close> header set to the prefix,
  the part of the original host before the first \<^verbatim>\<open>.s3.\<close>, joined by a dot with the host
  that the request's URL holds when the decorator runs (\<^verbatim>\<open>req.URL.Host\<close>); the URL host is
  left as it is. A backend below the decorator that then writes its own host into the URL
  sends the request on with the backend's URL host and with that same \<^verbatim>\<open>Host\<close>: the bucket
  prefix joined with the URL host of the inbound request.
\<close>

theorem headersSuplier_rewrites_Host:
  assumes "Contains (Host req) ''.s3.''"
  shows "\<exists>prefix rest req'.
           Host req = prefix @ ''.s3.'' @ rest
         \<and> (\<forall>q r. Host req = q @ ''.s3.'' @ r \<longrightarrow> length prefix \<le> length q)
         \<and> RoundTrip canon (headersSuplier requestHeaders responseHeaders roundTripper) req
             = inbound canon responseHeaders (RoundTrip canon roundTripper req')
         \<and> Host req' = prefix @ ''.'' @ URL_Host req
         \<and> Header req' (canon ''Host'') = Some [prefix @ ''.'' @ URL_Host req]
         \<and> URL_Host req' = URL_Host req
         \<and> (\<forall>scheme host.
               Host (toBackend scheme host req') = prefix @ ''.'' @ URL_Host req
             \<and> Header (toBackend scheme host req') (canon ''Host'')
                 = Some [prefix @ ''.'' @ URL_Host req]
             \<and> URL_Host (toBackend scheme host req') = host)"
proof -
  from genSplit_hd [of "''.s3.''" "Host req" "[]"] assms
  obtain p rest more where g: "genSplit ''.s3.'' [] (Host req) = p # more"
    and s: "Host req = p @ ''.s3.'' @ rest"
    and m: "\<forall>q r. Host req = q @ ''.s3.'' @ r \<longrightarrow> length p \<le> length q"
    by auto
  let ?h = "fold (supplyHeader canon) requestHeaders (Header req)"
  let ?req' = "req\<lparr>URL_Scheme := ''http'',
                    Header := Header_Set canon ''Host'' (p @ ''.'' @ URL_Host req) ?h,
                    Host := p @ ''.'' @ URL_Host req\<rparr>"
  have "outbound canon requestHeaders req = Some ?req'"
    using assms g by (simp add: outbound_def rewriteHost_def Split_def Let_def)
  then have "RoundTrip canon (headersSuplier requestHeaders responseHeaders roundTripper) req
             = inbound canon responseHeaders (RoundTrip canon roundTripper ?req')"
    by simp
  moreover have "Host ?req' = p @ ''.'' @ URL_Host req" by simp
  moreover have "Header ?req' (canon ''Host'') = Some [p @ ''.'' @ URL_Host req]"
    by (simp add: Header_Set_def)
  moreover have "URL_Host ?req' = URL_Host req" by simp
  moreover have "\<forall>scheme host.
               Host (toBackend scheme host ?req') = p @ ''.'' @ URL_Host req
             \<and> Header (toBackend scheme host ?req') (canon ''Host'')
                 = Some [p @ ''.'' @ URL_Host req]
             \<and> URL_Host (toBackend scheme host ?req') = host"
    by (simp add: toBackend_def Header_Set_def)
  ultimately show ?thesis using s m by blast
qed

text \<open>
  The host \<^verbatim>\<open>bucket.s3.region.example\<close>, coming in for \<^verbatim>\<open>localhost:8080\<close> and sent on to the
  backend \<^verbatim>\<open>someremote.backend:8080\<close>.
\<close>

theorem headersSuplier_rewrites_Host_witness:
  "Contains ''bucket.s3.region.example'' ''.s3.''
   \<and> (\<exists>prefix rest req'.
         ''bucket.s3.region.example'' = prefix @ ''.s3.'' @ rest
       \<and> RoundTrip id
           (headersSuplier [] [] (Base (Backend ''http'' ''someremote.backend:8080'' received)))
           \<lparr>Header = Map.empty, Method = ''GET'', URL_Scheme = ''http'',
            URL_Host = ''localhost:8080'', URL_Path = ''/o'', Host = ''bucket.s3.region.example''\<rparr>
           = inbound id []
               (RoundTrip id (Base (Backend ''http'' ''someremote.backend:8080'' received)) req')
       \<and> Host req' = prefix @ ''.'' @ ''localhost:8080''
       \<and> Host (toBackend ''http'' ''someremote.backend:8080'' req')
           = prefix @ ''.'' @ ''localhost:8080''
       \<and> URL_Host (toBackend ''http'' ''someremote.backend:8080'' req')
           = ''someremote.backend:8080'')"
proof -
  have c: "Contains ''bucket.s3.region.example'' ''.s3.''" by simp
  from headersSuplier_rewrites_Host [where canon = id and requestHeaders = "[]"
      and responseHeaders = "[]"
      and roundTripper = "Base (Backend ''http'' ''someremote.backend:8080'' received)"
      and req = "\<lparr>Header = Map.empty, Method = ''GET'', URL_Scheme = ''http'',
            URL_Host = ''localhost:8080'', URL_Path = ''/o'', Host = ''bucket.s3.region.example''\<rparr>"] c
  show ?thesis by simp blast
qed

section \<open>Properties of the ring factory\<close>

subsection \<open>Rounding to 53 bits\<close>

declare halvings.simps [simp del] doublings.simps [simp del]

lemma halvings_le: "1 \<le> x \<Longrightarrow> 2 ^ halvings x \<le> x"
proof (induction x rule: halvings.induct)
  case (1 x)
  show ?case
  proof (cases "2 \<le> x")
    case True
    then have "2 ^ halvings (x / 2) \<le> x / 2" using 1 by simp
    with True show ?thesis by (subst halvings.simps) simp
  next
    case False
    with 1 show ?thesis by (subst halvings.simps) simp
  qed
qed

lemma doublings_le: "0 < x \<Longrightarrow> x < 1 \<Longrightarrow> 1 / 2 ^ doublings x \<le> x"
proof (induction x rule: doublings.induct)
  case (1 x)
  show ?case
  proof (cases "2 * x < 1")
    case True
    with 1 have "1 / 2 ^ doublings (2 * x) \<le> 2 * x" by simp
    with 1 show ?thesis by (subst doublings.simps) simp
  next
    case False
    then have "doublings (2 * x) = 0" by (subst doublings.simps) simp
    with 1 False show ?thesis by (subst doublings.simps) simp
  qed
qed

lemma exponent_le: "0 < x \<Longrightarrow> 2 powi exponent x \<le> x"
proof (cases "1 \<le> x")
  case True
  then show ?thesis using halvings_le [of x] by (simp add: exponent_def)
next
  case False
  assume "0 < x"
  with False show ?thesis using doublings_le [of x]
    by (simp add: exponent_def power_int_minus field_simps)
qed

lemma round53_bounds:
  assumes "0 < x"
  defines "u \<equiv> 2 powi (exponent x - 52)"
  shows "of_int \<lfloor>x / u\<rfloor> * u \<le> round53 x" and "round53 x \<le> x + u / 2"
    and "x / u = of_int \<lfloor>x / u\<rfloor> \<Longrightarrow> round53 x = x"
proof -
  have u: "0 < u" by (simp add: u_def)
  let ?m = "x / u"
  let ?n = "\<lfloor>?m\<rfloor>"
  have x: "x = ?m * u" using u by simp
  have r: "round53 x = (if ?m - of_int ?n < 1 / 2 \<or> (?m - of_int ?n = 1 / 2 \<and> even ?n)
                        then of_int ?n * u else (of_int ?n + 1) * u)"
    using assms(1) by (simp add: round53_def Let_def u_def)
  have le: "of_int ?n * u \<le> x"
  proof -
    have "of_int ?n * u \<le> ?m * u" using u by (intro mult_right_mono) simp_all
    with x show ?thesis by simp
  qed
  show "of_int ?n * u \<le> round53 x"
    using u by (simp add: r distrib_right)
  show "round53 x \<le> x + u / 2"
  proof (cases "?m - of_int ?n < 1 / 2 \<or> (?m - of_int ?n = 1 / 2 \<and> even ?n)")
    case True
    then have "round53 x = of_int ?n * u" by (simp only: r if_True)
    with le u show ?thesis by simp
  next
    case False
    then have h: "1 / 2 \<le> ?m - of_int ?n" by auto
    have "round53 x = (of_int ?n + 1) * u" using False by (simp only: r if_False)
    also have "\<dots> \<le> (?m + 1 / 2) * u"
    proof (rule mult_right_mono)
      show "of_int ?n + 1 \<le> ?m + 1 / 2" using h by linarith
      show "0 \<le> u" using u by simp
    qed
    also have "\<dots> = x + u / 2" using u by (simp add: distrib_right)
    finally show ?thesis .
  qed
  show "round53 x = x" if "x / u = of_int \<lfloor>x / u\<rfloor>"
  proof -
    from that have "?m - of_int ?n = 0" by simp
    then have "round53 x = of_int ?n * u" by (simp add: r)
    with that x show ?thesis by simp
  qed
qed








lemma float64_of_pos: "0 < n \<Longrightarrow> 0 < float64_of n"
proof -
  assume "0 < n"
  then have pos: "0 < (of_nat n :: rat)" by simp
  let ?u = "(2::rat) powi (exponent (of_nat n) - 52)"
  have u: "0 < ?u" by simp
  have "?u * 2 ^ 52 = 2 powi exponent (of_nat n)" by (simp add: power_int_diff)
  also have "\<dots> \<le> of_nat n" using pos by (rule exponent_le)
  finally have "2 ^ 52 \<le> of_nat n / ?u" using u by (simp add: field_simps)
  moreover have "(1::rat) \<le> 2 ^ 52" by simp
  ultimately have "(1::rat) \<le> of_nat n / ?u" by (rule order_trans [rotated])
  then have "1 \<le> \<lfloor>of_nat n / ?u\<rfloor>" by simp
  then have "0 < of_int \<lfloor>of_nat n / ?u\<rfloor> * ?u" using u by simp
  with round53_bounds(1) [OF pos] show ?thesis by (simp add: float64_of_def)
qed


subsection \<open>Shard names\<close>

declare Sprintd.simps [simp del]















subsection \<open>The loops of the factory\<close>
























subsection \<open>C5: the shards of a cluster\<close>




end
